theory Spec2Isabelle
  imports Main "HOL-Library.AList"
begin

section \<open>Strings and characters\<close>

text \<open>
  Texts are \<^typ>\<open>string\<close>s: one \<^typ>\<open>char\<close> per code unit, of which the 8-bit range is
  modelled. \<open>isWhiteSpace\<close> is the class that \<open>\s\<close> and \<open>String.prototype.trim\<close> share
  (white space and line terminators): TAB, LF, VT, FF, CR, SP and NBSP in that range.
\<close>

definition isWhiteSpace :: "char \<Rightarrow> bool" where
  "isWhiteSpace c =
     (c \<in> set [CHR 0x09, CHR 0x0A, CHR 0x0B, CHR 0x0C, CHR 0x0D, CHR 0x20, CHR 0xA0])"

definition isLineTerminator :: "char \<Rightarrow> bool" where
  "isLineTerminator c = (c \<in> set [CHR 0x0A, CHR 0x0D])"

text \<open>
  Canonicalisation under the \<open>i\<close> flag: a character is compared through its upper-case
  form. In the 8-bit range the letters with an upper-case form there are \<open>a\<close> to \<open>z\<close>
  and the accented letters 0xE0 to 0xFE without the division sign 0xF7; the upper-case
  form is 0x20 below.
\<close>

definition lower_case_letters :: "char list" where
  "lower_case_letters =
     ''abcdefghijklmnopqrstuvwxyz'' @
     [CHR 0xE0, CHR 0xE1, CHR 0xE2, CHR 0xE3, CHR 0xE4, CHR 0xE5, CHR 0xE6, CHR 0xE7,
      CHR 0xE8, CHR 0xE9, CHR 0xEA, CHR 0xEB, CHR 0xEC, CHR 0xED, CHR 0xEE, CHR 0xEF,
      CHR 0xF0, CHR 0xF1, CHR 0xF2, CHR 0xF3, CHR 0xF4, CHR 0xF5, CHR 0xF6, CHR 0xF8,
      CHR 0xF9, CHR 0xFA, CHR 0xFB, CHR 0xFC, CHR 0xFD, CHR 0xFE]"

definition upper_case_letters :: "char list" where
  "upper_case_letters =
     ''ABCDEFGHIJKLMNOPQRSTUVWXYZ'' @
     [CHR 0xC0, CHR 0xC1, CHR 0xC2, CHR 0xC3, CHR 0xC4, CHR 0xC5, CHR 0xC6, CHR 0xC7,
      CHR 0xC8, CHR 0xC9, CHR 0xCA, CHR 0xCB, CHR 0xCC, CHR 0xCD, CHR 0xCE, CHR 0xCF,
      CHR 0xD0, CHR 0xD1, CHR 0xD2, CHR 0xD3, CHR 0xD4, CHR 0xD5, CHR 0xD6, CHR 0xD8,
      CHR 0xD9, CHR 0xDA, CHR 0xDB, CHR 0xDC, CHR 0xDD, CHR 0xDE]"

definition canonicalize :: "bool \<Rightarrow> char \<Rightarrow> char" where
  "canonicalize ignoreCase c =
     (if ignoreCase
      then (case map_of (zip lower_case_letters upper_case_letters) c of
              Some u \<Rightarrow> u
            | None \<Rightarrow> c)
      else c)"

text \<open>\<open>String.prototype.trim\<close>.\<close>

definition trim :: "string \<Rightarrow> string" where
  "trim s = rev (dropWhile isWhiteSpace (rev (dropWhile isWhiteSpace s)))"

text \<open>\<open>text.split('\n')\<close>: the pieces between the line feeds; never an empty array.\<close>

fun split_lines :: "string \<Rightarrow> string list" where
  "split_lines [] = [[]]"
| "split_lines (c # cs) =
     (if c = CHR 0x0A then [] # split_lines cs
      else (case split_lines cs of
              [] \<Rightarrow> [[c]]
            | l # ls \<Rightarrow> (c # l) # ls))"

text \<open>\<open>lines.join('\n')\<close>.\<close>

fun join_lines :: "string list \<Rightarrow> string" where
  "join_lines [] = []"
| "join_lines [l] = l"
| "join_lines (l # ls) = l @ CHR 0x0A # join_lines ls"

text \<open>\<open>s.substring(start, end)\<close> for \<open>start \<le> end \<le> s.length\<close>.\<close>

definition substring :: "string \<Rightarrow> nat \<Rightarrow> nat \<Rightarrow> string" where
  "substring s start end = take (end - start) (drop start s)"


section \<open>Regular expressions\<close>

text \<open>
  The patterns of the program are values of \<open>rx\<close>. A character class lists its items;
  \<open>Dot\<close> is \<open>.\<close> without the \<open>s\<close> flag and \<open>DotAll\<close> is \<open>.\<close> with it; \<open>Star\<close> and
  \<open>Opt\<close> are the greedy quantifiers, \<open>LazyStar\<close> is \<open>*?\<close>, \<open>Look\<close> is the lookahead
  \<open>(?=...)\<close>. \<open>r+\<close> is \<open>Seq r (Star r)\<close> and \<open>r+?\<close> is \<open>Seq r (LazyStar r)\<close>.
\<close>

datatype cset = CChar char | CSpace

datatype rx =
    Eps
  | Chr char
  | Dot
  | DotAll
  | Cls "cset list"
  | Seq rx rx
  | Alt rx rx
  | Opt rx
  | Star rx
  | LazyStar rx
  | Look rx

fun cset_mem :: "bool \<Rightarrow> char \<Rightarrow> cset \<Rightarrow> bool" where
  "cset_mem ic c (CChar d) = (canonicalize ic c = canonicalize ic d)"
| "cset_mem ic c CSpace = isWhiteSpace c"

text \<open>
  \<open>ms ic r s i\<close> lists the end positions of the matches of \<open>r\<close> in \<open>s\<close> that start at
  position \<open>i\<close>, in the order in which the backtracking matcher tries them: the head of
  the list is the match that is reported. An iteration of a quantified pattern that
  consumes nothing is rejected, as the matcher's empty check does.
\<close>

function ms :: "bool \<Rightarrow> rx \<Rightarrow> string \<Rightarrow> nat \<Rightarrow> nat list" where
  "ms ic Eps s i = [i]"
| "ms ic (Chr d) s i =
     (if i < length s \<and> canonicalize ic (s ! i) = canonicalize ic d then [Suc i] else [])"
| "ms ic Dot s i = (if i < length s \<and> \<not> isLineTerminator (s ! i) then [Suc i] else [])"
| "ms ic DotAll s i = (if i < length s then [Suc i] else [])"
| "ms ic (Cls its) s i =
     (if i < length s \<and> list_ex (cset_mem ic (s ! i)) its then [Suc i] else [])"
| "ms ic (Seq r1 r2) s i = concat (map (\<lambda>j. ms ic r2 s j) (ms ic r1 s i))"
| "ms ic (Alt r1 r2) s i = ms ic r1 s i @ ms ic r2 s i"
| "ms ic (Opt r) s i = filter (\<lambda>j. j \<noteq> i) (ms ic r s i) @ [i]"
| "ms ic (Star r) s i =
     concat (map (\<lambda>j. if i < j \<and> j \<le> length s then ms ic (Star r) s j else [])
                 (ms ic r s i)) @ [i]"
| "ms ic (LazyStar r) s i =
     i # concat (map (\<lambda>j. if i < j \<and> j \<le> length s then ms ic (LazyStar r) s j else [])
                     (ms ic r s i))"
| "ms ic (Look r) s i = (if ms ic r s i = [] then [] else [i])"
  by pat_completeness auto
termination
  by (relation "measures [\<lambda>(ic, r, s, i). size r, \<lambda>(ic, r, s, i). length s - i]") auto

text \<open>The equations of the two loops unfold without end; they are applied by hand.\<close>

declare ms.simps(9,10) [simp del]

text \<open>A literal word: its characters in sequence.\<close>

fun lit :: "string \<Rightarrow> rx" where
  "lit [] = Eps"
| "lit [c] = Chr c"
| "lit (c # cs) = Seq (Chr c) (lit cs)"

text \<open>The terms of a sequence, one after the other.\<close>

fun mk_seq :: "rx list \<Rightarrow> rx" where
  "mk_seq [] = Eps"
| "mk_seq [r] = r"
| "mk_seq (r # rs) = Seq r (mk_seq rs)"

text \<open>
  A compiled pattern is used through its matcher: for a subject and a start position,
  the end of the match that starts there, or nothing. \<open>rx_matcher ic r\<close> is the matcher
  of the pattern \<open>r\<close>, with the \<open>i\<close> flag when \<open>ic\<close> holds.
\<close>

type_synonym matcher = "string \<Rightarrow> nat \<Rightarrow> nat option"

definition rx_matcher :: "bool \<Rightarrow> rx \<Rightarrow> matcher" where
  "rx_matcher ic r s i = (case ms ic r s i of [] \<Rightarrow> None | e # es \<Rightarrow> Some e)"

text \<open>
  The leftmost position from \<open>from\<close> on at which the matcher succeeds, with the end of
  the match there: the start positions are tried one after the other.
\<close>

definition first_match :: "matcher \<Rightarrow> string \<Rightarrow> nat \<Rightarrow> (nat \<times> nat) option" where
  "first_match m s from =
     (case find (\<lambda>p. m s p \<noteq> None) [from ..< Suc (length s)] of
        None \<Rightarrow> None
      | Some p \<Rightarrow> map_option (\<lambda>e. (p, e)) (m s p))"

text \<open>\<open>RegExp.prototype.test\<close> of a pattern without the \<open>g\<close> flag: is there a match at all.\<close>

definition regexp_test :: "matcher \<Rightarrow> string \<Rightarrow> bool" where
  "regexp_test m s = (first_match m s 0 \<noteq> None)"

text \<open>
  \<open>RegExp.prototype.exec\<close> of a pattern with the \<open>g\<close> flag, whose state is \<open>lastIndex\<close>:
  the search starts at \<open>lastIndex\<close>; a match \<open>(index, end)\<close> sets \<open>lastIndex\<close> to its
  end, also when the match is empty; a failure resets it to 0. The second component is
  the new \<open>lastIndex\<close>.
\<close>

definition regexp_exec :: "matcher \<Rightarrow> string \<Rightarrow> nat \<Rightarrow> (nat \<times> nat) option \<times> nat" where
  "regexp_exec m s lastIndex =
     (if length s < lastIndex then (None, 0)
      else (case first_match m s lastIndex of
              None \<Rightarrow> (None, 0)
            | Some (p, e) \<Rightarrow> (Some (p, e), e)))"


section \<open>Section segmentation (PdfReader.extractSections)\<close>

text \<open>
  The section map is a JavaScript object with string keys: an association list in
  insertion order, where assigning to a key that is present keeps its place.
\<close>

type_synonym section_map = "(string \<times> string) list"

definition ws_star :: rx where
  "ws_star = Star (Cls [CSpace])"

definition nl :: rx where
  "nl = Chr (CHR 0x0A)"

text \<open>\<open>/word\s*\n/i\<close>\<close>

definition heading :: "string \<Rightarrow> rx" where
  "heading w = mk_seq (map Chr w @ [ws_star, nl])"

text \<open>\<open>/\n1\.\s*introduction/i\<close>\<close>

definition numbered_introduction :: rx where
  "numbered_introduction =
     mk_seq ([nl, Chr CHR ''1'', Chr CHR ''.'', ws_star] @ map Chr ''introduction'')"

definition sectionPatterns :: "(string \<times> rx list) list" where
  "sectionPatterns =
     [(''abstract'', [heading ''abstract'', heading ''summary'']),
      (''introduction'',
         [heading ''introduction'', numbered_introduction]),
      (''methodology'', [heading ''methodology'', heading ''methods'', heading ''approach'']),
      (''results'', [heading ''results'', heading ''findings'', heading ''experiments'']),
      (''discussion'', [heading ''discussion'', heading ''analysis'']),
      (''conclusion'', [heading ''conclusion'', heading ''conclusions'', heading ''summary'']),
      (''references'', [heading ''references'', heading ''bibliography''])]"

text \<open>
  The two inner loops over \<open>sectionPatterns\<close>: the name of the first section one of whose
  patterns tests true on the line.
\<close>

definition find_section :: "string \<Rightarrow> string option" where
  "find_section line =
     map_option fst
       (find (\<lambda>(name, patterns). list_ex (\<lambda>pattern. regexp_test (rx_matcher True pattern) line) patterns)
             sectionPatterns)"

text \<open>Truthiness of \<open>currentSection\<close> (\<open>string | null\<close>) and of an optional string property.\<close>

fun truthy :: "string option \<Rightarrow> bool" where
  "truthy None = False"
| "truthy (Some s) = (s \<noteq> [])"

text \<open>
  \<open>if (currentSection && currentContent.length > 0)
     sections[currentSection] = currentContent.join('\n').trim();\<close>
\<close>

definition save_section :: "section_map \<Rightarrow> string option \<Rightarrow> string list \<Rightarrow> section_map" where
  "save_section sections currentSection currentContent =
     (case currentSection of
        None \<Rightarrow> sections
      | Some name \<Rightarrow>
          (if name \<noteq> [] \<and> currentContent \<noteq> []
           then AList.update name (trim (join_lines currentContent)) sections
           else sections))"

text \<open>The loop over the lines; the state is \<open>(sections, currentSection, currentContent)\<close>.\<close>

fun scan_lines ::
  "string list \<Rightarrow> section_map \<times> string option \<times> string list
     \<Rightarrow> section_map \<times> string option \<times> string list" where
  "scan_lines [] st = st"
| "scan_lines (line # rest) (sections, currentSection, currentContent) =
     scan_lines rest
       (case find_section line of
          Some name \<Rightarrow> (save_section sections currentSection currentContent, Some name, [])
        | None \<Rightarrow>
            (if truthy currentSection
             then (sections, currentSection, currentContent @ [line])
             else (sections, currentSection, currentContent)))"

text \<open>
  The fallback pattern
  \<open>/abstract[:\s]*(.+?)(?=\n\s*\n|\nintroduction|\n1\.|keywords)/is\<close>
  in three parts: what precedes the group, the group, and the lookahead.
\<close>

definition abstract_prefix :: rx where
  "abstract_prefix = Seq (lit ''abstract'') (Star (Cls [CChar CHR '':'', CSpace]))"

definition abstract_group :: rx where
  "abstract_group = Seq DotAll (LazyStar DotAll)"

definition abstract_lookahead :: rx where
  "abstract_lookahead =
     Look (Alt (Seq nl (Seq ws_star nl))
          (Alt (Seq nl (lit ''introduction''))
          (Alt (Seq nl (Seq (Chr CHR ''1'') (Chr CHR ''.'')))
               (lit ''keywords''))))"

text \<open>
  \<open>text.match(...)\<close> and its group 1: at the leftmost position where the whole pattern
  matches, the first end of the prefix from which group and lookahead succeed delimits
  the group together with the first end of the group there.
\<close>

definition abstractMatch :: "string \<Rightarrow> string option" where
  "abstractMatch text =
     (let rest = Seq abstract_group abstract_lookahead in
      case first_match (rx_matcher True (Seq abstract_prefix rest)) text 0 of
        None \<Rightarrow> None
      | Some (p, e) \<Rightarrow>
          (case find (\<lambda>j. ms True rest text j \<noteq> []) (ms True abstract_prefix text p) of
             None \<Rightarrow> None
           | Some j \<Rightarrow> Some (substring text j e)))"

definition extractSections :: "string \<Rightarrow> section_map" where
  "extractSections text =
     (case scan_lines (split_lines text) ([], None, []) of
        (sections, currentSection, currentContent) \<Rightarrow>
          (let sections = save_section sections currentSection currentContent in
           if \<not> truthy (map_of sections ''abstract'')
           then (case abstractMatch text of
                   Some group1 \<Rightarrow> AList.update ''abstract'' (trim group1) sections
                 | None \<Rightarrow> sections)
           else sections))"

definition canonical_sections :: "string set" where
  "canonical_sections =
     {''abstract'', ''introduction'', ''methodology'', ''results'', ''discussion'',
      ''conclusion'', ''references''}"


section \<open>Errors\<close>

text \<open>
  What the program throws: the classes of \<open>utils/errors.ts\<close>, the plain \<open>Error\<close> with its
  message, the \<open>SyntaxError\<close> of the \<open>RegExp\<close> constructor, the \<open>FetchError\<close> of
  \<open>fetch\<close> and the system errors of \<open>fs\<close> with their code.
\<close>

datatype error =
    NetworkError string
  | ValidationError string
  | NotFoundError string
  | RateLimitError string
  | StorageError string
  | PdfParseError string
  | Error string
  | SyntaxError
  | FetchError string
  | SystemError string

text \<open>The \<open>name\<close> property, which tells the kinds of error apart.\<close>

fun error_name :: "error \<Rightarrow> string" where
  "error_name (NetworkError m) = ''NetworkError''"
| "error_name (ValidationError m) = ''ValidationError''"
| "error_name (NotFoundError m) = ''NotFoundError''"
| "error_name (RateLimitError m) = ''RateLimitError''"
| "error_name (StorageError m) = ''StorageError''"
| "error_name (PdfParseError m) = ''PdfParseError''"
| "error_name (Error m) = ''Error''"
| "error_name SyntaxError = ''SyntaxError''"
| "error_name (FetchError m) = ''FetchError''"
| "error_name (SystemError c) = ''Error''"

text \<open>The \<open>message\<close> property.\<close>

fun error_message :: "error \<Rightarrow> string" where
  "error_message (NetworkError m) = m"
| "error_message (ValidationError m) = m"
| "error_message (NotFoundError m) = m"
| "error_message (RateLimitError m) = m"
| "error_message (StorageError m) = m"
| "error_message (PdfParseError m) = m"
| "error_message (Error m) = m"
| "error_message SyntaxError = ''Invalid regular expression''"
| "error_message (FetchError m) = m"
| "error_message (SystemError c) = c"


section \<open>Search (PdfReader.searchInPaper)\<close>

record PaperContent =
  content_id :: string
  content_title :: string
  sections :: section_map
  fullText :: string

type_synonym match = "string \<times> nat"
type_synonym section_matches = "string \<times> match list"

text \<open>
  The \<open>while ((match = searchRegex.exec(sectionContent)) !== null)\<close> loop. Its state is
  the \<open>lastIndex\<close> of the expression and the matches pushed so far; it returns both when
  \<open>exec\<close> returns null. \<open>None\<close> is a loop that never ends.
\<close>

partial_function (option) search_loop ::
  "matcher \<Rightarrow> nat \<Rightarrow> string \<Rightarrow> nat \<Rightarrow> match list \<Rightarrow> (match list \<times> nat) option" where
  "search_loop searchRegex termLength sectionContent lastIndex matches =
     (case regexp_exec searchRegex sectionContent lastIndex of
        (None, lastIndex') \<Rightarrow> Some (matches, lastIndex')
      | (Some (index, e), lastIndex') \<Rightarrow>
          search_loop searchRegex termLength sectionContent lastIndex'
            (matches @
               [(substring sectionContent (index - 50)
                   (min (length sectionContent) (index + termLength + 50)),
                 index)]))"

declare search_loop.simps [code]

text \<open>The \<open>for\<close> loop over \<open>Object.entries(content.sections)\<close>; the expression is shared.\<close>

fun search_sections ::
  "matcher \<Rightarrow> nat \<Rightarrow> section_map \<Rightarrow> nat \<Rightarrow> section_matches list
     \<Rightarrow> section_matches list option" where
  "search_sections searchRegex termLength [] lastIndex results = Some results"
| "search_sections searchRegex termLength ((sectionName, sectionContent) # rest) lastIndex
       results =
     (if sectionContent = []
      then search_sections searchRegex termLength rest lastIndex results
      else (case search_loop searchRegex termLength sectionContent lastIndex [] of
              None \<Rightarrow> None
            | Some (matches, lastIndex') \<Rightarrow>
                search_sections searchRegex termLength rest lastIndex'
                  (if matches \<noteq> [] then results @ [(sectionName, matches)] else results)))"

text \<open>
  \<open>searchInPaper\<close>. The constructor \<open>new RegExp(pattern, flags)\<close> belongs to the
  language, not to the program: it is the parameter \<open>RegExp\<close>, which gives the matcher
  of the pattern or throws. What it throws leaves the function.
\<close>

definition searchInPaper ::
  "(string \<Rightarrow> string \<Rightarrow> error + matcher) \<Rightarrow> PaperContent \<Rightarrow> string \<Rightarrow> bool
     \<Rightarrow> (error + section_matches list) option" where
  "searchInPaper RegExp content searchTerm caseSensitive =
     (let flags = (if caseSensitive then ''g'' else ''gi'') in
      case RegExp searchTerm flags of
        Inl e \<Rightarrow> Some (Inl e)
      | Inr searchRegex \<Rightarrow>
          map_option Inr
            (search_sections searchRegex (length searchTerm) (sections content) 0 []))"


section \<open>File names (utils/fileUtils.ts)\<close>

definition STORAGE_DIR :: string where
  "STORAGE_DIR = ''storage''"

text \<open>The pieces of a path between its slashes.\<close>

fun split_path :: "string \<Rightarrow> string list" where
  "split_path [] = [[]]"
| "split_path (c # cs) =
     (if c = CHR ''/'' then [] # split_path cs
      else (case split_path cs of
              [] \<Rightarrow> [[c]]
            | seg # segs \<Rightarrow> (c # seg) # segs))"

fun join_path :: "string list \<Rightarrow> string" where
  "join_path [] = []"
| "join_path [seg] = seg"
| "join_path (seg # segs) = seg @ CHR ''/'' # join_path segs"

text \<open>
  The segments of a normal path, from the segments read so far (the last one first):
  an empty segment and \<open>.\<close> are dropped, \<open>..\<close> removes the segment before it, and
  stays when there is none to remove and the path is relative.
\<close>

fun normalize_segments :: "bool \<Rightarrow> string list \<Rightarrow> string list \<Rightarrow> string list" where
  "normalize_segments allowAboveRoot acc [] = rev acc"
| "normalize_segments allowAboveRoot acc (seg # segs) =
     (if seg = [] \<or> seg = ''.'' then normalize_segments allowAboveRoot acc segs
      else if seg = ''..'' then
        (case acc of
           [] \<Rightarrow> normalize_segments allowAboveRoot (if allowAboveRoot then [seg] else []) segs
         | prev # others \<Rightarrow>
             if prev = ''..'' then normalize_segments allowAboveRoot (if allowAboveRoot then seg # acc else acc) segs
             else normalize_segments allowAboveRoot others segs)
      else normalize_segments allowAboveRoot (seg # acc) segs)"

text \<open>\<open>path.normalize\<close> (POSIX).\<close>

definition normalize :: "string \<Rightarrow> string" where
  "normalize path =
     (if path = [] then ''.''
      else
        (let isAbsolute = (hd path = CHR ''/'');
             trailingSeparator = (last path = CHR ''/'');
             body = join_path (normalize_segments (\<not> isAbsolute) [] (split_path path))
         in if body = []
            then (if isAbsolute then ''/'' else if trailingSeparator then ''./'' else ''.'')
            else (if isAbsolute then ''/'' else []) @ body
                   @ (if trailingSeparator then ''/'' else [])))"

text \<open>\<open>path.join(dir, name)\<close>: the non-empty arguments, joined by a slash and normalised.\<close>

definition path_join :: "string \<Rightarrow> string \<Rightarrow> string" where
  "path_join dir name =
     normalize (if dir = [] then name else if name = [] then dir else dir @ ''/'' @ name)"

text \<open>The directory that holds the file of a normal path.\<close>

definition dirname :: "string \<Rightarrow> string" where
  "dirname path =
     (if CHR ''/'' \<notin> set path then ''.''
      else (let dir = rev (tl (dropWhile (\<lambda>c. c \<noteq> CHR ''/'') (rev path)))
            in if dir = [] then ''/'' else dir))"

definition METADATA_FILE :: string where
  "METADATA_FILE = path_join STORAGE_DIR ''metadata.json''"

text \<open>\<open>.replace(/[<>:"/\\|?*]/g, '_')\<close>\<close>

definition replace_invalid :: "string \<Rightarrow> string" where
  "replace_invalid s =
     map (\<lambda>c. if c \<in> set [CHR ''<'', CHR ''>'', CHR '':'', CHR 0x22, CHR ''/'', CHR 0x5C,
                              CHR ''|'', CHR ''?'', CHR ''*'']
                then CHR ''_'' else c) s"

text \<open>\<open>.replace(/\s+/g, '_')\<close>: every maximal run of white space becomes one underscore.\<close>

function replace_whitespace :: "string \<Rightarrow> string" where
  "replace_whitespace [] = []"
| "replace_whitespace (c # cs) =
     (if isWhiteSpace c then CHR ''_'' # replace_whitespace (dropWhile isWhiteSpace cs)
      else c # replace_whitespace cs)"
  by pat_completeness auto
termination
  by (relation "measure length") (auto simp: length_dropWhile_le less_Suc_eq_le)

text \<open>\<open>.replace(/_{2,}/g, '_')\<close>: every run of two or more underscores becomes one.\<close>

function collapse_underscores :: "string \<Rightarrow> string" where
  "collapse_underscores [] = []"
| "collapse_underscores (c # cs) =
     (if c = CHR ''_'' then CHR ''_'' # collapse_underscores (dropWhile (\<lambda>d. d = CHR ''_'') cs)
      else c # collapse_underscores cs)"
  by pat_completeness auto
termination
  by (relation "measure length") (auto simp: length_dropWhile_le less_Suc_eq_le)

definition sanitizeFilename :: "string \<Rightarrow> string" where
  "sanitizeFilename filename =
     take 200 (collapse_underscores (replace_whitespace (replace_invalid filename)))"

text \<open>
  \<open>arxivId.replace('/', '_')\<close>: \<open>replace\<close> with a string pattern replaces the first
  occurrence only.
\<close>

fun replace_first_slash :: "string \<Rightarrow> string" where
  "replace_first_slash [] = []"
| "replace_first_slash (c # cs) =
     (if c = CHR ''/'' then CHR ''_'' # cs else c # replace_first_slash cs)"

text \<open>\<open>`${arxivId.replace('/', '_')}_${sanitizeFilename(paperInfo.title)}.pdf`\<close>\<close>

definition artifact_filename :: "string \<Rightarrow> string \<Rightarrow> string" where
  "artifact_filename arxivId title =
     replace_first_slash arxivId @ ''_'' @ sanitizeFilename title @ ''.pdf''"


section \<open>The storage manager (StorageManager)\<close>

record DownloadedPaper =
  paper_id :: string
  title :: string
  authors :: "string list"
  downloadDate :: string
  filePath :: string
  fileSize :: nat
  categories :: "string list"
  abstract :: string

text \<open>
  The catalog is a \<open>Map\<close>: an association list in insertion order whose keys are
  distinct. \<open>set\<close> is \<open>AList.update\<close>, \<open>delete\<close> is \<open>AList.delete\<close>, \<open>get\<close> is
  \<open>map_of\<close> and \<open>size\<close> is the length.
\<close>

type_synonym catalog = "(string \<times> DownloadedPaper) list"

text \<open>
  The file system: the files with their contents, the directories, the paths whose
  removal the system refuses and the paths it refuses to write. A file holds bytes or,
  for the metadata file, the catalog that was serialised into it.
\<close>

datatype file_content = Bytes string | CatalogJson catalog

record filesystem =
  files :: "(string \<times> file_content) list"
  directories :: "string list"
  unlink_denied :: "string list"
  write_denied :: "string list"

text \<open>\<open>fs.access(path)\<close> succeeds when the path exists, as a file or as a directory.\<close>

definition access :: "filesystem \<Rightarrow> string \<Rightarrow> bool" where
  "access fsys path = (map_of (files fsys) path \<noteq> None \<or> path \<in> set (directories fsys))"

text \<open>\<open>fs.unlink(path)\<close> removes a file.\<close>

definition unlink :: "filesystem \<Rightarrow> string \<Rightarrow> error + filesystem" where
  "unlink fsys path =
     (if path \<in> set (directories fsys) then Inl (SystemError ''EISDIR'')
      else if map_of (files fsys) path = None then Inl (SystemError ''ENOENT'')
      else if path \<in> set (unlink_denied fsys) then Inl (SystemError ''EACCES'')
      else Inr (fsys\<lparr>files := AList.delete path (files fsys)\<rparr>))"

text \<open>
  \<open>fs.writeFile(path, content)\<close> creates or replaces a file in a directory that exists;
  it creates no directory.
\<close>

definition writeFile :: "filesystem \<Rightarrow> string \<Rightarrow> file_content \<Rightarrow> error + filesystem" where
  "writeFile fsys path content =
     (if dirname path \<notin> set (directories fsys) then Inl (SystemError ''ENOENT'')
      else if path \<in> set (directories fsys) then Inl (SystemError ''EISDIR'')
      else if path \<in> set (write_denied fsys) then Inl (SystemError ''EACCES'')
      else Inr (fsys\<lparr>files := AList.update path content (files fsys)\<rparr>))"

definition readFile :: "filesystem \<Rightarrow> string \<Rightarrow> error + file_content" where
  "readFile fsys path =
     (if path \<in> set (directories fsys) then Inl (SystemError ''EISDIR'')
      else (case map_of (files fsys) path of
              None \<Rightarrow> Inl (SystemError ''ENOENT'')
            | Some content \<Rightarrow> Inr content))"

text \<open>\<open>getFileSize\<close> of the path of a file: the size from \<open>fs.stat\<close>, and 0 when \<open>stat\<close>
  fails.\<close>

definition getFileSize :: "filesystem \<Rightarrow> string \<Rightarrow> nat" where
  "getFileSize fsys path =
     (case map_of (files fsys) path of
        Some (Bytes b) \<Rightarrow> length b
      | Some (CatalogJson c) \<Rightarrow> 0
      | None \<Rightarrow> 0)"

text \<open>
  What \<open>fetch(pdfUrl)\<close> gives: a response (\<open>ok\<close>, \<open>statusText\<close>, body), or the
  message of the \<open>FetchError\<close> it throws.
\<close>

datatype response = Response bool string string | FetchFailed string

text \<open>
  The state: the catalog in memory (\<open>this.metadata\<close>), the file system, and the URLs
  fetched so far.
\<close>

record storage =
  metadata :: catalog
  fs :: filesystem
  fetched :: "string list"

text \<open>\<open>saveMetadata\<close> through \<open>writeJsonFile\<close>, which rethrows what \<open>fs.writeFile\<close> throws.\<close>

definition saveMetadata :: "storage \<Rightarrow> error + storage" where
  "saveMetadata w =
     (case writeFile (fs w) METADATA_FILE (CatalogJson (metadata w)) of
        Inl e \<Rightarrow> Inl e
      | Inr fsys \<Rightarrow> Inr (w\<lparr>fs := fsys\<rparr>))"

record paperInfo =
  info_title :: string
  info_authors :: "string list"
  info_categories :: "string list"
  info_abstract :: string

text \<open>
  \<open>downloadPaper\<close>; \<open>net\<close> answers \<open>fetch\<close> and \<open>now\<close> is \<open>new Date().toISOString()\<close>.
  The outer \<open>catch\<close> logs and rethrows.
\<close>

definition downloadPaper ::
  "(string \<Rightarrow> response) \<Rightarrow> string \<Rightarrow> string \<Rightarrow> string \<Rightarrow> paperInfo \<Rightarrow> storage
     \<Rightarrow> (error + DownloadedPaper) \<times> storage" where
  "downloadPaper net now arxivId pdfUrl info w =
     (case (case map_of (metadata w) arxivId of
              None \<Rightarrow> None
            | Some existing \<Rightarrow>
                if access (fs w) (filePath existing) then Some existing else None) of
        Some existing \<Rightarrow> (Inr existing, w)
      | None \<Rightarrow>
          (let w1 = w\<lparr>fetched := fetched w @ [pdfUrl]\<rparr> in
           case net pdfUrl of
             FetchFailed m \<Rightarrow> (Inl (FetchError m), w1)
           | Response ok statusText buffer \<Rightarrow>
               if \<not> ok then (Inl (Error (''Failed to download: '' @ statusText)), w1)
               else
                 (let filename = artifact_filename arxivId (info_title info);
                      path = path_join STORAGE_DIR filename in
                  case writeFile (fs w1) path (Bytes buffer) of
                    Inl e \<Rightarrow> (Inl e, w1)
                  | Inr fsys \<Rightarrow>
                      (let downloadedPaper =
                             \<lparr>paper_id = arxivId,
                              title = info_title info,
                              authors = info_authors info,
                              downloadDate = now,
                              filePath = path,
                              fileSize = getFileSize fsys path,
                              categories = info_categories info,
                              abstract = info_abstract info\<rparr>;
                           w2 = w1\<lparr>fs := fsys,
                                   metadata := AList.update arxivId downloadedPaper (metadata w1)\<rparr>
                       in case saveMetadata w2 of
                            Inl e \<Rightarrow> (Inl e, w2)
                          | Inr w3 \<Rightarrow> (Inr downloadedPaper, w3)))))"

text \<open>
  The loop of \<open>listDownloadedPapers\<close> over the entries of the catalog: an entry whose
  file is there is pushed, the others are deleted from the catalog as they are met.
\<close>

fun list_scan :: "catalog \<Rightarrow> storage \<Rightarrow> DownloadedPaper list \<Rightarrow> DownloadedPaper list \<times> storage" where
  "list_scan [] w papers = (papers, w)"
| "list_scan ((ident, paper) # rest) w papers =
     (if access (fs w) (filePath paper) then list_scan rest w (papers @ [paper])
      else list_scan rest (w\<lparr>metadata := AList.delete ident (metadata w)\<rparr>) papers)"

definition listDownloadedPapers :: "storage \<Rightarrow> (error + DownloadedPaper list) \<times> storage" where
  "listDownloadedPapers w =
     (case list_scan (metadata w) w [] of
        (papers, w1) \<Rightarrow>
          if length papers \<noteq> length (metadata w1)
          then (case saveMetadata w1 of
                  Inl e \<Rightarrow> (Inl e, w1)
                | Inr w2 \<Rightarrow> (Inr papers, w2))
          else (Inr papers, w1))"

text \<open>\<open>deletePaper\<close>: whatever the \<open>try\<close> block throws is logged and answered with false.\<close>

definition deletePaper :: "string \<Rightarrow> storage \<Rightarrow> (error + bool) \<times> storage" where
  "deletePaper arxivId w =
     (case map_of (metadata w) arxivId of
        None \<Rightarrow> (Inr False, w)
      | Some paper \<Rightarrow>
          (case unlink (fs w) (filePath paper) of
             Inl e \<Rightarrow> (Inr False, w)
           | Inr fsys \<Rightarrow>
               (let w1 = w\<lparr>fs := fsys, metadata := AList.delete arxivId (metadata w)\<rparr> in
                case saveMetadata w1 of
                  Inl e \<Rightarrow> (Inr False, w1)
                | Inr w2 \<Rightarrow> (Inr True, w2))))"

text \<open>The state after \<open>n\<close> further calls of \<open>listDownloadedPapers\<close>.\<close>

fun after_lists :: "nat \<Rightarrow> storage \<Rightarrow> storage" where
  "after_lists 0 w = w"
| "after_lists (Suc n) w = after_lists n (snd (listDownloadedPapers w))"

text \<open>The invariant of the catalog as a \<open>Map\<close>.\<close>

definition distinct_keys :: "storage \<Rightarrow> bool" where
  "distinct_keys w = distinct (map fst (metadata w))"


section \<open>The tool handlers (ArxivServer)\<close>

text \<open>
  \<open>PdfReader.readPaperContent\<close>; \<open>parsePdf\<close> is the decoder, which gives the text or
  throws: an \<open>Error\<close> with its message, or another value. Every failure is rethrown
  as a plain \<open>Error\<close>, with the message of the failure or, for a value that is no
  \<open>Error\<close>, with \<open>Unknown error\<close>.
\<close>

definition PdfReader_readPaperContent ::
  "(file_content \<Rightarrow> string option + string) \<Rightarrow> filesystem \<Rightarrow> string \<Rightarrow> string \<Rightarrow> string
     \<Rightarrow> error + PaperContent" where
  "PdfReader_readPaperContent parsePdf fsys path paperId paperTitle =
     (case readFile fsys path of
        Inl e \<Rightarrow> Inl (Error (''Failed to read PDF content: '' @ error_message e))
      | Inr dataBuffer \<Rightarrow>
          (case parsePdf dataBuffer of
             Inl thrown \<Rightarrow>
               Inl (Error (''Failed to read PDF content: ''
                           @ (case thrown of Some m \<Rightarrow> m | None \<Rightarrow> ''Unknown error'')))
           | Inr text \<Rightarrow>
               Inr \<lparr>content_id = paperId, content_title = paperTitle,
                    sections = extractSections text, fullText = text\<rparr>))"

record tool_args =
  arg_arxivId :: "string option"
  arg_searchTerm :: "string option"
  arg_caseSensitive :: "bool option"

definition not_downloaded_message :: "string \<Rightarrow> string" where
  "not_downloaded_message ident =
     ''Paper '' @ ident @ '' not found in local storage. Please download it first.''"

text \<open>The answer of \<open>read_paper_content\<close>: id, title, sections and \<open>fullText.length\<close>.\<close>

type_synonym read_answer = "string \<times> string \<times> section_map \<times> nat"

definition ArxivServer_readPaperContent ::
  "(file_content \<Rightarrow> string option + string) \<Rightarrow> tool_args \<Rightarrow> storage
     \<Rightarrow> (error + read_answer) \<times> storage" where
  "ArxivServer_readPaperContent parsePdf args w =
     (if \<not> truthy (arg_arxivId args) then (Inl (ValidationError ''arxivId is required''), w)
      else
        (case listDownloadedPapers w of
           (Inl e, w1) \<Rightarrow> (Inl e, w1)
         | (Inr papers, w1) \<Rightarrow>
             (case find (\<lambda>p. Some (paper_id p) = arg_arxivId args) papers of
                None \<Rightarrow>
                  (Inl (ValidationError (not_downloaded_message (the (arg_arxivId args)))), w1)
              | Some paper \<Rightarrow>
                  (case PdfReader_readPaperContent parsePdf (fs w1) (filePath paper)
                          (paper_id paper) (title paper) of
                     Inl e \<Rightarrow> (Inl e, w1)
                   | Inr content \<Rightarrow>
                       (Inr (content_id content, content_title content, sections content,
                             length (fullText content)), w1)))))"

text \<open>
  The answer of \<open>search_in_paper\<close>: paperId, searchTerm, totalMatches and the results.
  \<open>None\<close> is a search that never ends.
\<close>

type_synonym search_answer = "string \<times> string \<times> nat \<times> section_matches list"

definition ArxivServer_searchInPaper ::
  "(string \<Rightarrow> string \<Rightarrow> error + matcher) \<Rightarrow> (file_content \<Rightarrow> string option + string)
     \<Rightarrow> tool_args \<Rightarrow> storage \<Rightarrow> ((error + search_answer) \<times> storage) option" where
  "ArxivServer_searchInPaper RegExp parsePdf args w =
     (if \<not> truthy (arg_arxivId args) \<or> \<not> truthy (arg_searchTerm args)
      then Some (Inl (ValidationError ''arxivId and searchTerm are required''), w)
      else
        (case listDownloadedPapers w of
           (Inl e, w1) \<Rightarrow> Some (Inl e, w1)
         | (Inr papers, w1) \<Rightarrow>
             (case find (\<lambda>p. Some (paper_id p) = arg_arxivId args) papers of
                None \<Rightarrow>
                  Some (Inl (ValidationError (not_downloaded_message (the (arg_arxivId args)))), w1)
              | Some paper \<Rightarrow>
                  (case PdfReader_readPaperContent parsePdf (fs w1) (filePath paper)
                          (paper_id paper) (title paper) of
                     Inl e \<Rightarrow> Some (Inl e, w1)
                   | Inr content \<Rightarrow>
                       (case searchInPaper RegExp content (the (arg_searchTerm args))
                               (case arg_caseSensitive args of None \<Rightarrow> False | Some b \<Rightarrow> b) of
                          None \<Rightarrow> None
                        | Some (Inl e) \<Rightarrow> Some (Inl e, w1)
                        | Some (Inr searchResults) \<Rightarrow>
                            Some (Inr (the (arg_arxivId args), the (arg_searchTerm args),
                                       sum_list (map (\<lambda>r. length (snd r)) searchResults),
                                       searchResults), w1))))))"


section \<open>Notions used in the statements and proofs\<close>



definition forward :: "matcher \<Rightarrow> bool" where
  "forward m = (\<forall>s i e. m s i = Some e \<longrightarrow> i \<le> e)"

text \<open>
  \<open>meets_empty m s lastIndex\<close>: the calls of \<open>exec\<close> on the subject \<open>s\<close>, from
  \<open>lastIndex\<close> on, come to an empty match.
\<close>

inductive meets_empty :: "matcher \<Rightarrow> string \<Rightarrow> nat \<Rightarrow> bool"
  for m :: matcher and s :: string where
  here: "regexp_exec m s lastIndex = (Some (p, p), lastIndex') \<Longrightarrow> meets_empty m s lastIndex"
| later: "regexp_exec m s lastIndex = (Some (p, e), lastIndex') \<Longrightarrow>
          meets_empty m s lastIndex' \<Longrightarrow> meets_empty m s lastIndex"

text \<open>\<open>needs_lf r\<close>: every match of the pattern contains a line feed.\<close>

fun needs_lf :: "rx \<Rightarrow> bool" where
  "needs_lf (Chr c) = (c = CHR 0x0A)"
| "needs_lf (Seq r1 r2) = (needs_lf r1 \<or> needs_lf r2)"
| "needs_lf (Alt r1 r2) = (needs_lf r1 \<and> needs_lf r2)"
| "needs_lf r = False"

text \<open>The entries of the catalog whose artifact exists.\<close>

definition valid_entries :: "storage \<Rightarrow> catalog" where
  "valid_entries w = filter (\<lambda>(ident, paper). access (fs w) (filePath paper)) (metadata w)"

text \<open>The name of the error a call failed with, if it failed.\<close>

fun failure_name :: "error + 'a \<Rightarrow> string option" where
  "failure_name (Inl e) = Some (error_name e)"
| "failure_name (Inr x) = None"


section \<open>Example inputs\<close>

definition cat_paper :: PaperContent where
  "cat_paper =
     \<lparr>content_id = ''2301.00001'', content_title = ''Cats'',
      sections = [(''introduction'', ''the cat sat on the mat'')],
      fullText = ''the cat sat on the mat''\<rparr>"



text \<open>A catalog entry and three states of the store.\<close>

definition sample_paper :: DownloadedPaper where
  "sample_paper =
     \<lparr>paper_id = ''2301.00001'', title = ''Cats'', authors = [''A. Author''],
      downloadDate = ''2024-01-01T00:00:00.000Z'',
      filePath = ''storage/2301.00001_Cats.pdf'', fileSize = 4,
      categories = [''cs.AI''], abstract = ''On cats.''\<rparr>"

definition sample_info :: paperInfo where
  "sample_info =
     \<lparr>info_title = ''Cats'', info_authors = [''A. Author''],
      info_categories = [''cs.AI''], info_abstract = ''On cats.''\<rparr>"

text \<open>The entry is in the catalog and in the metadata file; its artifact is gone.\<close>

definition stale_storage :: storage where
  "stale_storage =
     \<lparr>metadata = [(''2301.00001'', sample_paper)],
      fs = \<lparr>files = [(METADATA_FILE, CatalogJson [(''2301.00001'', sample_paper)])],
             directories = [STORAGE_DIR], unlink_denied = [], write_denied = []\<rparr>,
      fetched = []\<rparr>"

text \<open>The artifact is there, and the system refuses to remove it.\<close>

definition locked_storage :: storage where
  "locked_storage =
     \<lparr>metadata = [(''2301.00001'', sample_paper)],
      fs = \<lparr>files = [(''storage/2301.00001_Cats.pdf'', Bytes ''%PDF''),
                      (METADATA_FILE, CatalogJson [(''2301.00001'', sample_paper)])],
             directories = [STORAGE_DIR],
             unlink_denied = [''storage/2301.00001_Cats.pdf''], write_denied = []\<rparr>,
      fetched = []\<rparr>"

definition empty_storage :: storage where
  "empty_storage =
     \<lparr>metadata = [],
      fs = \<lparr>files = [], directories = [STORAGE_DIR], unlink_denied = [],
             write_denied = []\<rparr>,
      fetched = []\<rparr>"

text \<open>
  A decoder that reads nothing, a network that answers nothing and a constructor that
  compiles nothing.
\<close>

definition no_decoder :: "file_content \<Rightarrow> string option + string" where
  "no_decoder c = Inl (Some ''Invalid PDF structure'')"

definition no_RegExp :: "string \<Rightarrow> string \<Rightarrow> error + matcher" where
  "no_RegExp pattern flags = Inl SyntaxError"

text \<open>A network that answers every request with a small file.\<close>

definition pdf_network :: "string \<Rightarrow> response" where
  "pdf_network url = Response True ''OK'' ''%PDF''"

definition no_network :: "string \<Rightarrow> response" where
  "no_network url = FetchFailed ''offline''"

text \<open>Is the paper among those a call of \<open>listDownloadedPapers\<close> returned.\<close>

fun listed :: "DownloadedPaper \<Rightarrow> error + DownloadedPaper list \<Rightarrow> bool" where
  "listed paper (Inl e) = False"
| "listed paper (Inr papers) = (paper \<in> set papers)"


section \<open>The segmentation: results\<close>

text \<open>
  C1. For the text \<open>"Abstract\nFoo bar.\nIntroduction\nBaz qux."\<close> the section map
  should hold \<open>abstract \<mapsto> "Foo bar."\<close> and \<open>introduction \<mapsto> "Baz qux."\<close>. The
  lines of a text contain no line feed, which every heading pattern requires, so the
  scan recognises no heading; the map that is returned holds the abstract alone, found
  by the fallback pattern, and no introduction.
\<close>

theorem extractSections_two_headings:
  "extractSections ''Abstract\<newline>Foo bar.\<newline>Introduction\<newline>Baz qux.''
     = [(''abstract'', ''Foo bar.'')]"
  by code_simp

lemma find_section_canonical: "find_section line = Some name \<Longrightarrow> name \<in> canonical_sections"
  by (auto simp: find_section_def sectionPatterns_def canonical_sections_def
           split: if_splits)

lemma keys_save_section:
  assumes "k \<in> fst ` set (save_section secs cur content)"
  shows "k \<in> fst ` set secs \<or> cur = Some k"
  using assms by (auto simp: save_section_def dom_update split: option.splits if_splits)

lemma scan_lines_keys:
  "scan_lines lines (secs, cur, content) = (secs', cur', content') \<Longrightarrow>
   fst ` set secs \<subseteq> canonical_sections \<Longrightarrow>
   (\<forall>n. cur = Some n \<longrightarrow> n \<in> canonical_sections) \<Longrightarrow>
   fst ` set secs' \<subseteq> canonical_sections \<and>
   (\<forall>n. cur' = Some n \<longrightarrow> n \<in> canonical_sections)"
proof (induction lines arbitrary: secs cur content)
  case Nil
  then show ?case by simp
next
  case (Cons line rest)
  show ?case
  proof (cases "find_section line")
    case None
    with Cons.prems have
      "scan_lines rest (secs, cur, if truthy cur then content @ [line] else content)
         = (secs', cur', content')"
      by (simp split: if_splits)
    from Cons.IH[OF this Cons.prems(2,3)] show ?thesis .
  next
    case (Some name)
    with Cons.prems have *:
      "scan_lines rest (save_section secs cur content, Some name, [])
         = (secs', cur', content')"
      by simp
    have "fst ` set (save_section secs cur content) \<subseteq> canonical_sections"
      using keys_save_section[of _ secs cur content] Cons.prems(2,3) by blast
    moreover have "\<forall>n. Some name = Some n \<longrightarrow> n \<in> canonical_sections"
      using find_section_canonical[OF Some] by simp
    ultimately show ?thesis using Cons.IH[OF *] by blast
  qed
qed

text \<open>
  C10. Whatever the text, every key of the section map that \<open>extractSections\<close> returns
  is one of abstract, introduction, methodology, results, discussion, conclusion and
  references: the scan stores under the name of a table entry only, and the fallback
  under \<open>abstract\<close>.
\<close>

theorem extractSections_keys_canonical:
  "fst ` set (extractSections text) \<subseteq> canonical_sections"
proof -
  obtain secs cur content where
    sc: "scan_lines (split_lines text) ([], None, []) = (secs, cur, content)"
    by (cases "scan_lines (split_lines text) ([], None, [])") auto
  from scan_lines_keys[OF sc] have
    inv: "fst ` set secs \<subseteq> canonical_sections"
         "\<forall>n. cur = Some n \<longrightarrow> n \<in> canonical_sections"
    by auto
  have s2: "fst ` set (save_section secs cur content) \<subseteq> canonical_sections"
    using keys_save_section[of _ secs cur content] inv by blast
  have ab: "''abstract'' \<in> canonical_sections" by (simp add: canonical_sections_def)
  have "fst ` set (AList.update ''abstract'' v (save_section secs cur content))
          \<subseteq> canonical_sections" for v
    using s2 ab by (simp add: dom_update)
  then show ?thesis
    using s2 by (simp add: extractSections_def sc Let_def split: option.splits)
qed


section \<open>The matcher: where a match ends\<close>

lemmas ms_star = ms.simps(9)
lemmas ms_lstar = ms.simps(10)

lemma ms_bounds:
  "j \<in> set (ms ic r s i) \<Longrightarrow> i \<le> j \<and> (i \<le> length s \<longrightarrow> j \<le> length s)"
proof (induction ic r s i arbitrary: j rule: ms.induct)
  case (6 ic r1 r2 s i)
  then obtain k where k: "k \<in> set (ms ic r1 s i)" "j \<in> set (ms ic r2 s k)" by auto
  from "6.IH"(1)[OF k(1)] "6.IH"(2)[OF k(1) k(2)] show ?case by auto
next
  case (9 ic r s i)
  show ?case
  proof (cases "j = i")
    case True then show ?thesis by simp
  next
    case False
    with "9.prems" obtain k where k: "k \<in> set (ms ic r s i)" "i < k" "k \<le> length s" "j \<in> set (ms ic (Star r) s k)"
      by (auto simp: ms_star[of ic r s i] split: if_splits)
    from "9.IH"(2)[OF k(1) _ k(4)] k show ?thesis by auto
  qed
next
  case (10 ic r s i)
  show ?case
  proof (cases "j = i")
    case True then show ?thesis by simp
  next
    case False
    with "10.prems" obtain k where k: "k \<in> set (ms ic r s i)" "i < k" "k \<le> length s" "j \<in> set (ms ic (LazyStar r) s k)"
      by (auto simp: ms_lstar[of ic r s i] split: if_splits)
    from "10.IH"(2)[OF k(1) _ k(4)] k show ?thesis by auto
  qed
qed (auto split: if_splits)



lemma rx_matcher_SomeD: "rx_matcher ic r s i = Some e \<Longrightarrow> e \<in> set (ms ic r s i)"
  by (auto simp: rx_matcher_def split: list.splits)

lemma rx_matcher_forward: "forward (rx_matcher ic r)"
  unfolding forward_def using rx_matcher_SomeD ms_bounds by blast



section \<open>The calls of \<open>exec\<close>\<close>

















section \<open>The search: results\<close>

lemma search_sections_nonempty:
  "search_sections m n secs lastIndex results = Some res \<Longrightarrow>
   (\<forall>(name, ml) \<in> set results. ml \<noteq> []) \<Longrightarrow> (\<forall>(name, ml) \<in> set res. ml \<noteq> [])"
proof (induction secs arbitrary: lastIndex results)
  case Nil
  then show ?case by simp
next
  case (Cons sec secs)
  obtain name body where sec: "sec = (name, body)" by (cases sec)
  show ?case
  proof (cases "body = []")
    case True
    with sec Cons.prems Cons.IH show ?thesis by simp
  next
    case False
    with sec Cons.prems(1) obtain matches l where
      "search_sections m n secs l
         (if matches \<noteq> [] then results @ [(name, matches)] else results) = Some res"
      by (auto split: option.splits)
    moreover have
      "\<forall>(name, ml) \<in> set (if matches \<noteq> [] then results @ [(name, matches)] else results).
         ml \<noteq> []"
      using Cons.prems(2) by auto
    ultimately show ?thesis using Cons.IH by blast
  qed
qed

lemma searchInPaper_nonempty:
  assumes "searchInPaper RegExp content term cs = Some (Inr res)"
  shows "\<forall>(name, ml) \<in> set res. ml \<noteq> []"
proof -
  from assms obtain m where
    "search_sections m (length term) (sections content) 0 [] = Some res"
    by (auto simp: searchInPaper_def Let_def split: sum.splits)
  from search_sections_nonempty[OF this] show ?thesis by simp
qed

text \<open>
  C6. Let the constructor compile \<open>"cat"\<close> with the flags \<open>gi\<close>, and \<open>"CAT"\<close> with the
  flag \<open>g\<close>, to the expression that matches this word. In the section map
  \<open>{introduction: "the cat sat on the mat"}\<close> the search for \<open>"cat"\<close>, not case
  sensitive, returns one match, in section introduction, at offset 4, whose context is
  the whole body (which contains \<open>"the cat sat"\<close>); the search for \<open>"CAT"\<close>, case
  sensitive, returns no match and no entry for the section. In general every section
  that a search returns has at least one match.
\<close>

theorem searchInPaper_cat:
  assumes "RegExp ''cat'' ''gi'' = Inr (rx_matcher True (lit ''cat''))"
    and "RegExp ''CAT'' ''g'' = Inr (rx_matcher False (lit ''CAT''))"
  shows "searchInPaper RegExp cat_paper ''cat'' False
           = Some (Inr [(''introduction'', [(''the cat sat on the mat'', 4)])])
       \<and> searchInPaper RegExp cat_paper ''CAT'' True = Some (Inr [])
       \<and> (\<forall>content term cs res.
            searchInPaper RegExp content term cs = Some (Inr res) \<longrightarrow>
            (\<forall>(name, matches) \<in> set res. matches \<noteq> []))"
proof -
  have "search_sections (rx_matcher True (lit ''cat'')) (length ''cat'') (sections cat_paper) 0 []
          = Some [(''introduction'', [(''the cat sat on the mat'', 4)])]"
    by code_simp
  then have a: "searchInPaper RegExp cat_paper ''cat'' False
     = Some (Inr [(''introduction'', [(''the cat sat on the mat'', 4)])])"
    using assms(1) by (simp add: searchInPaper_def)
  have "search_sections (rx_matcher False (lit ''CAT'')) (length ''CAT'') (sections cat_paper) 0 []
          = Some []"
    by code_simp
  then have b: "searchInPaper RegExp cat_paper ''CAT'' True = Some (Inr [])"
    using assms(2) by (simp add: searchInPaper_def)
  show ?thesis using a b searchInPaper_nonempty by blast
qed

text \<open>C6 with the constructor that reads its pattern as a word.\<close>

theorem searchInPaper_cat_witness:
  "searchInPaper (\<lambda>pattern flags. Inr (rx_matcher (CHR ''i'' \<in> set flags) (lit pattern)))
      cat_paper ''cat'' False
     = Some (Inr [(''introduction'', [(''the cat sat on the mat'', 4)])])
   \<and> searchInPaper (\<lambda>pattern flags. Inr (rx_matcher (CHR ''i'' \<in> set flags) (lit pattern)))
      cat_paper ''CAT'' True
     = Some (Inr [])
   \<and> list_all (\<lambda>(name, matches). matches \<noteq> [])
         [(''introduction'', [(''the cat sat on the mat'', 4::nat)])]"
proof -
  let ?RegExp = "\<lambda>pattern flags. Inr (rx_matcher (CHR ''i'' \<in> set flags) (lit pattern))
                   :: error + matcher"
  have h1: "?RegExp ''cat'' ''gi'' = Inr (rx_matcher True (lit ''cat''))" by simp
  have h2: "?RegExp ''CAT'' ''g'' = Inr (rx_matcher False (lit ''CAT''))" by simp
  note t = searchInPaper_cat[of ?RegExp, OF h1 h2]
  from t have a: "searchInPaper ?RegExp cat_paper ''cat'' False
     = Some (Inr [(''introduction'', [(''the cat sat on the mat'', 4)])])"
    by blast
  from t have b: "searchInPaper ?RegExp cat_paper ''CAT'' True = Some (Inr [])" by blast
  from t have "\<forall>content term cs res.
        searchInPaper ?RegExp content term cs = Some (Inr res) \<longrightarrow>
        (\<forall>(name, matches) \<in> set res. matches \<noteq> [])"
    by blast
  with a have
    "\<forall>(name, matches) \<in> set [(''introduction'', [(''the cat sat on the mat'', 4::nat)])].
       matches \<noteq> []"
    by blast
  then have c: "list_all (\<lambda>(name, matches). matches \<noteq> [])
         [(''introduction'', [(''the cat sat on the mat'', 4::nat)])]"
    by (simp add: list_all_iff)
  from a b c show ?thesis by blast
qed




section \<open>The storage manager: results\<close>

lemma list_scan_fs: "fs (snd (list_scan es w papers)) = fs w"
  by (induction es w papers rule: list_scan.induct) auto

lemma list_scan_char:
  "list_scan es w papers =
     (papers @ map snd (filter (\<lambda>(k, p). access (fs w) (filePath p)) es),
      w\<lparr>metadata :=
          filter (\<lambda>(k, p). k \<notin> fst ` set (filter (\<lambda>(k, p). \<not> access (fs w) (filePath p)) es))
                 (metadata w)\<rparr>)"
proof (induction es w papers rule: list_scan.induct)
  case (1 w papers)
  then show ?case by simp
next
  case (2 ident paper rest w papers)
  show ?case
  proof (cases "access (fs w) (filePath paper)")
    case True
    with 2 show ?thesis by simp
  next
    case False
    have "filter (\<lambda>(k, p). k \<notin> fst ` set (filter (\<lambda>(k, p). \<not> access (fs w) (filePath p)) rest))
                 (AList.delete ident (metadata w))
          = filter (\<lambda>(k, p). k \<notin> fst ` set (filter (\<lambda>(k, p). \<not> access (fs w) (filePath p)) ((ident, paper) # rest)))
                 (metadata w)"
      using False by (auto simp: AList.delete_eq intro!: filter_cong)
    with False 2 show ?thesis by simp
  qed
qed

lemma filter_valid:
  assumes "distinct (map fst m)"
  shows "filter (\<lambda>(k, p). k \<notin> fst ` set (filter (\<lambda>(k, p). \<not> V p) m)) m
         = filter (\<lambda>(k, p). V p) m"
proof (rule filter_cong[OF refl])
  fix x assume x: "x \<in> set m"
  obtain k p where kp: "x = (k, p)" by (cases x)
  have "k \<in> fst ` set (filter (\<lambda>(k, p). \<not> V p) m) \<longleftrightarrow> \<not> V p"
  proof
    assume "k \<in> fst ` set (filter (\<lambda>(k, p). \<not> V p) m)"
    then obtain p' where p': "(k, p') \<in> set m" "\<not> V p'" by auto
    from assms p'(1) x kp have "p' = p" by (metis eq_key_imp_eq_value)
    with p' show "\<not> V p" by simp
  next
    assume "\<not> V p"
    with x kp show "k \<in> fst ` set (filter (\<lambda>(k, p). \<not> V p) m)" by force
  qed
  then show "(case x of (k, p) \<Rightarrow> k \<notin> fst ` set (filter (\<lambda>(k, p). \<not> V p) m)) = (case x of (k, p) \<Rightarrow> V p)"
    using kp by simp
qed

lemma listDownloadedPapers_distinct:
  assumes "distinct_keys w"
  shows "listDownloadedPapers w = (Inr (map snd (valid_entries w)), w\<lparr>metadata := valid_entries w\<rparr>)"
proof -
  have "filter (\<lambda>(k, p). k \<notin> fst ` set (filter (\<lambda>(k, p). \<not> access (fs w) (filePath p)) (metadata w))) (metadata w)
        = valid_entries w"
    using filter_valid[of "metadata w" "\<lambda>p. access (fs w) (filePath p)"] assms
    by (simp add: distinct_keys_def valid_entries_def)
  then have "list_scan (metadata w) w [] = (map snd (valid_entries w), w\<lparr>metadata := valid_entries w\<rparr>)"
    by (simp add: list_scan_char valid_entries_def)
  then show ?thesis by (simp add: listDownloadedPapers_def)
qed

lemma valid_entries_idem:
  "valid_entries (w\<lparr>metadata := valid_entries w\<rparr>) = valid_entries w"
  by (simp add: valid_entries_def)

lemma distinct_keys_valid: "distinct_keys w \<Longrightarrow> distinct_keys (w\<lparr>metadata := valid_entries w\<rparr>)"
  by (simp add: distinct_keys_def valid_entries_def distinct_map_filter)

lemma after_lists_distinct:
  assumes "distinct_keys w"
  shows "distinct_keys (after_lists n w) \<and> valid_entries (after_lists n w) = valid_entries w
         \<and> fs (after_lists n w) = fs w"
  using assms
proof (induction n arbitrary: w)
  case 0
  then show ?case by simp
next
  case (Suc n)
  have "after_lists (Suc n) w = after_lists n (w\<lparr>metadata := valid_entries w\<rparr>)"
    by (simp add: listDownloadedPapers_distinct[OF Suc.prems])
  with Suc.IH[OF distinct_keys_valid[OF Suc.prems]] show ?case
    by (simp add: valid_entries_idem)
qed

lemma listDownloadedPapers_after_lists:
  assumes "distinct_keys w"
  shows "fst (listDownloadedPapers (after_lists n w)) = Inr (map snd (valid_entries w))"
  using after_lists_distinct[OF assms, of n]
  by (simp add: listDownloadedPapers_distinct)

lemma deletePaper_unlink_fails:
  assumes "map_of (metadata w) arxivId = Some paper" and "unlink (fs w) (filePath paper) = Inl e"
  shows "deletePaper arxivId w = (Inr False, w)"
  using assms by (simp add: deletePaper_def)


lemma listDownloadedPapers_never_saves:
  "distinct_keys w \<Longrightarrow> fs (snd (listDownloadedPapers w)) = fs w"
  by (simp add: listDownloadedPapers_distinct)

text \<open>
  C2. \<open>listDownloadedPapers\<close> should drop the entries whose artifact is gone, return the
  others and, when it dropped one, write the pruned catalog to the metadata file. Here
  the only entry has lost its artifact: the entry is dropped from the catalog in memory
  and the empty list is returned, but the metadata file is not written and still holds
  the entry. After the loop the number of papers kept always equals the size of the
  catalog, so the test that guards \<open>saveMetadata\<close> never succeeds.
\<close>

theorem listDownloadedPapers_stale:
  "listDownloadedPapers stale_storage = (Inr [], stale_storage\<lparr>metadata := []\<rparr>)
   \<and> readFile (fs (snd (listDownloadedPapers stale_storage))) METADATA_FILE
       = Inr (CatalogJson [(''2301.00001'', sample_paper)])"
  by code_simp

text \<open>
  C3, as stated, fails: the entry exists, the removal of the artifact is refused, and
  \<open>deletePaper\<close> returns false; it does not fail.
\<close>

theorem deletePaper_locked_returns_false:
  "map_of (metadata locked_storage) ''2301.00001'' = Some sample_paper
   \<and> unlink (fs locked_storage) (filePath sample_paper) = Inl (SystemError ''EACCES'')
   \<and> fst (deletePaper ''2301.00001'' locked_storage) = Inr False"
  by code_simp

text \<open>
  C3, amended. If the entry of an identifier exists and the removal of its artifact
  fails, \<open>deletePaper\<close> returns the boolean false: the failure is caught and logged, and
  no error reaches the caller.
\<close>

theorem deletePaper_unlink_failure_false:
  assumes "map_of (metadata w) arxivId = Some paper"
    and "unlink (fs w) (filePath paper) = Inl e"
  shows "fst (deletePaper arxivId w) = Inr False"
  using deletePaper_unlink_fails[OF assms] by simp

text \<open>C3, amended, at the store whose artifact cannot be removed.\<close>

theorem deletePaper_unlink_failure_false_witness:
  "map_of (metadata locked_storage) ''2301.00001'' = Some sample_paper
   \<and> unlink (fs locked_storage) (filePath sample_paper) = Inl (SystemError ''EACCES'')
   \<and> fst (deletePaper ''2301.00001'' locked_storage) = Inr False"
proof -
  have h1: "map_of (metadata locked_storage) ''2301.00001'' = Some sample_paper" by code_simp
  have h2: "unlink (fs locked_storage) (filePath sample_paper) = Inl (SystemError ''EACCES'')"
    by code_simp
  from deletePaper_unlink_failure_false[OF h1 h2] h1 h2 show ?thesis by simp
qed

text \<open>
  C4. If the entry of an identifier exists and the removal of its artifact fails during
  \<open>deletePaper\<close>, the catalog is unchanged afterwards, the entry is still in it, and,
  when the artifact exists, every later call of \<open>listDownloadedPapers\<close> returns the
  entry.
\<close>

theorem deletePaper_unlink_failure_keeps_entry:
  assumes "distinct_keys w"
    and "map_of (metadata w) arxivId = Some paper"
    and "unlink (fs w) (filePath paper) = Inl e"
  shows "metadata (snd (deletePaper arxivId w)) = metadata w
       \<and> map_of (metadata (snd (deletePaper arxivId w))) arxivId = Some paper
       \<and> (access (fs w) (filePath paper) \<longrightarrow>
            listed paper (fst (listDownloadedPapers (after_lists n (snd (deletePaper arxivId w))))))"
proof -
  have d: "deletePaper arxivId w = (Inr False, w)"
    using deletePaper_unlink_fails[OF assms(2,3)] .
  have "listed paper (fst (listDownloadedPapers (after_lists n w)))"
    if "access (fs w) (filePath paper)"
  proof -
    have "(arxivId, paper) \<in> set (metadata w)" using assms(2) by (rule map_of_SomeD)
    with that have "(arxivId, paper) \<in> set (valid_entries w)" by (simp add: valid_entries_def)
    then have "paper \<in> set (map snd (valid_entries w))" by force
    then show ?thesis by (simp add: listDownloadedPapers_after_lists[OF assms(1)])
  qed
  with d assms(2) show ?thesis by simp
qed

text \<open>C4 at the store whose artifact cannot be removed, for the third listing after.\<close>

theorem deletePaper_unlink_failure_keeps_entry_witness:
  "distinct_keys locked_storage
   \<and> map_of (metadata locked_storage) ''2301.00001'' = Some sample_paper
   \<and> unlink (fs locked_storage) (filePath sample_paper) = Inl (SystemError ''EACCES'')
   \<and> access (fs locked_storage) (filePath sample_paper)
   \<and> metadata (snd (deletePaper ''2301.00001'' locked_storage)) = metadata locked_storage
   \<and> listed sample_paper
        (fst (listDownloadedPapers (after_lists 2 (snd (deletePaper ''2301.00001'' locked_storage)))))"
proof -
  have h0: "distinct_keys locked_storage" by code_simp
  have h1: "map_of (metadata locked_storage) ''2301.00001'' = Some sample_paper" by code_simp
  have h2: "unlink (fs locked_storage) (filePath sample_paper) = Inl (SystemError ''EACCES'')"
    by code_simp
  have h3: "access (fs locked_storage) (filePath sample_paper)" by code_simp
  from deletePaper_unlink_failure_keeps_entry[OF h0 h1 h2, of 2] h0 h1 h2 h3
  show ?thesis by simp
qed

text \<open>
  C5. If the identifier has an entry in the catalog and the artifact of the entry
  exists, \<open>downloadPaper\<close> returns that entry as it is and leaves the state as it was:
  nothing is fetched, no file is written and the catalog is unchanged.
\<close>

theorem downloadPaper_idempotent:
  assumes "map_of (metadata w) arxivId = Some existing"
    and "access (fs w) (filePath existing)"
  shows "downloadPaper net now arxivId pdfUrl info w = (Inr existing, w)"
  using assms by (simp add: downloadPaper_def)

text \<open>C5 at a store that holds the paper, with a network that would fail if asked.\<close>

theorem downloadPaper_idempotent_witness:
  "map_of (metadata locked_storage) ''2301.00001'' = Some sample_paper
   \<and> access (fs locked_storage) (filePath sample_paper)
   \<and> downloadPaper no_network ''2024-02-02T00:00:00.000Z'' ''2301.00001''
        ''http://arxiv.org/pdf/2301.00001'' sample_info locked_storage
      = (Inr sample_paper, locked_storage)"
proof -
  have h1: "map_of (metadata locked_storage) ''2301.00001'' = Some sample_paper" by code_simp
  have h2: "access (fs locked_storage) (filePath sample_paper)" by code_simp
  from downloadPaper_idempotent[OF h1 h2] h1 h2 show ?thesis by simp
qed

text \<open>After a call that succeeded, a second call for the same identifier changes nothing.\<close>

lemma downloadPaper_twice:
  assumes "downloadPaper net now arxivId pdfUrl info w = (Inr paper, w1)"
  shows "downloadPaper net' now' arxivId pdfUrl' info' w1 = (Inr paper, w1)"
proof (cases "\<exists>existing. map_of (metadata w) arxivId = Some existing \<and> access (fs w) (filePath existing)")
  case True
  then obtain existing where ex: "map_of (metadata w) arxivId = Some existing"
    "access (fs w) (filePath existing)" by blast
  with assms have "paper = existing" "w1 = w" by (simp_all add: downloadPaper_def)
  with ex show ?thesis by (simp add: downloadPaper_def)
next
  case False
  then have none: "(case map_of (metadata w) arxivId of None \<Rightarrow> None
            | Some existing \<Rightarrow> if access (fs w) (filePath existing) then Some existing else None) = None"
    by (auto split: option.splits)
  define path where "path = path_join STORAGE_DIR (artifact_filename arxivId (info_title info))"
  from assms none obtain ok statusText buffer fsys where
    w: "writeFile (fs w) path (Bytes buffer) = Inr fsys"
    and p: "paper = \<lparr>paper_id = arxivId, title = info_title info, authors = info_authors info,
               downloadDate = now, filePath = path, fileSize = getFileSize fsys path,
               categories = info_categories info, abstract = info_abstract info\<rparr>"
    and s: "saveMetadata (w\<lparr>fetched := fetched w @ [pdfUrl], fs := fsys,
               metadata := AList.update arxivId paper (metadata w)\<rparr>) = Inr w1"
    unfolding downloadPaper_def path_def
    by (auto simp: Let_def split: response.splits if_splits sum.splits)
  from w have f1: "map_of (files fsys) path \<noteq> None"
    by (auto simp: writeFile_def update_conv' split: if_splits)
  from s have m: "metadata w1 = AList.update arxivId paper (metadata w)"
    and f2: "map_of (files (fs w1)) path \<noteq> None"
    using f1 by (auto simp: saveMetadata_def writeFile_def update_conv' split: if_splits)
  have "map_of (metadata w1) arxivId = Some paper" by (simp add: m update_conv')
  moreover have "access (fs w1) (filePath paper)" using f2 p by (simp add: access_def)
  ultimately show ?thesis by (simp add: downloadPaper_def)
qed

text \<open>
  A first download into an empty store writes the artifact and the metadata file; with
  an identifier of two slashes the artifact would lie in a directory that does not
  exist, and the write fails.
\<close>

lemma downloadPaper_first:
  "downloadPaper pdf_network ''2024-01-01T00:00:00.000Z'' ''2301.00001''
     ''http://arxiv.org/pdf/2301.00001'' sample_info empty_storage
   = (Inr sample_paper,
      \<lparr>metadata = [(''2301.00001'', sample_paper)],
       fs = \<lparr>files = [(''storage/2301.00001_Cats.pdf'', Bytes ''%PDF''),
                       (METADATA_FILE, CatalogJson [(''2301.00001'', sample_paper)])],
              directories = [STORAGE_DIR], unlink_denied = [], write_denied = []\<rparr>,
       fetched = [''http://arxiv.org/pdf/2301.00001'']\<rparr>)"
  by code_simp

lemma downloadPaper_two_slashes:
  "fst (downloadPaper pdf_network ''2024-01-01T00:00:00.000Z'' ''hep-th/9901001/v1''
          ''http://arxiv.org/pdf/hep-th/9901001v1''
          \<lparr>info_title = ''A: B'', info_authors = [], info_categories = [],
           info_abstract = []\<rparr>
          empty_storage)
   = Inl (SystemError ''ENOENT'')"
  by code_simp

text \<open>
  C7. The artifact should be named by the identifier with every slash replaced by an
  underscore, an underscore, the sanitised title and \<open>.pdf\<close>. Of the identifier only the
  first slash is replaced: \<open>replace\<close> is given the string \<open>'/'\<close>, not a pattern with the
  \<open>g\<close> flag as in \<open>sanitizeFilename\<close>. The second slash of this identifier stays in the
  name.
\<close>

theorem artifact_filename_two_slashes:
  "artifact_filename ''hep-th/9901001/v1'' ''A: B'' = ''hep-th_9901001/v1_A_B.pdf''"
  by code_simp

lemma sanitizeFilename_length: "length (sanitizeFilename filename) \<le> 200"
  by (simp add: sanitizeFilename_def)

text \<open>
  C8, as stated, fails: for an identifier that is not in the store, reading and
  searching fail with a \<open>ValidationError\<close>, the kind with which they fail when an
  argument is missing.
\<close>

theorem not_downloaded_is_validation:
  "failure_name (fst (ArxivServer_readPaperContent no_decoder
       \<lparr>arg_arxivId = Some ''2301.00001'', arg_searchTerm = None, arg_caseSensitive = None\<rparr>
       empty_storage)) = Some ''ValidationError''
   \<and> failure_name (fst (ArxivServer_readPaperContent no_decoder
       \<lparr>arg_arxivId = None, arg_searchTerm = None, arg_caseSensitive = None\<rparr>
       empty_storage)) = Some ''ValidationError''
   \<and> map_option (failure_name \<circ> fst) (ArxivServer_searchInPaper no_RegExp no_decoder
       \<lparr>arg_arxivId = Some ''2301.00001'', arg_searchTerm = Some ''cat'', arg_caseSensitive = None\<rparr>
       empty_storage) = Some (Some ''ValidationError'')
   \<and> map_option (failure_name \<circ> fst) (ArxivServer_searchInPaper no_RegExp no_decoder
       \<lparr>arg_arxivId = Some ''2301.00001'', arg_searchTerm = None, arg_caseSensitive = None\<rparr>
       empty_storage) = Some (Some ''ValidationError'')"
  by code_simp

text \<open>
  C8, amended. For a non-empty identifier that no valid entry of the catalog carries,
  \<open>read_paper_content\<close>, and \<open>search_in_paper\<close> with a non-empty search term, fail
  with a \<open>ValidationError\<close> whose message is
  \<open>Paper <id> not found in local storage. Please download it first.\<close>
\<close>

theorem not_downloaded_validation_error:
  assumes "distinct_keys w" and "ident \<noteq> []"
    and "\<forall>(k, p) \<in> set (valid_entries w). paper_id p \<noteq> ident"
  shows "fst (ArxivServer_readPaperContent parsePdf
                \<lparr>arg_arxivId = Some ident, arg_searchTerm = t, arg_caseSensitive = c\<rparr> w)
           = Inl (ValidationError (not_downloaded_message ident))
       \<and> (term \<noteq> [] \<longrightarrow>
            map_option fst (ArxivServer_searchInPaper RegExp parsePdf
                \<lparr>arg_arxivId = Some ident, arg_searchTerm = Some term, arg_caseSensitive = c\<rparr> w)
              = Some (Inl (ValidationError (not_downloaded_message ident))))"
proof -
  have "find (\<lambda>p. Some (paper_id p) = Some ident) (map snd (valid_entries w)) = None"
    using assms(3) by (auto simp: find_None_iff)
  then show ?thesis
    using assms(2) by (simp add: ArxivServer_readPaperContent_def ArxivServer_searchInPaper_def
        listDownloadedPapers_distinct[OF assms(1)])
qed

text \<open>C8, amended, at the store whose only entry has lost its artifact.\<close>

theorem not_downloaded_validation_error_witness:
  "distinct_keys stale_storage \<and> ''2301.00001'' \<noteq> []
   \<and> valid_entries stale_storage = []
   \<and> fst (ArxivServer_readPaperContent no_decoder
                \<lparr>arg_arxivId = Some ''2301.00001'', arg_searchTerm = None,
                 arg_caseSensitive = None\<rparr>
                stale_storage)
           = Inl (ValidationError (not_downloaded_message ''2301.00001''))
   \<and> ''cat'' \<noteq> []
   \<and> map_option fst (ArxivServer_searchInPaper no_RegExp no_decoder
                \<lparr>arg_arxivId = Some ''2301.00001'', arg_searchTerm = Some ''cat'',
                 arg_caseSensitive = None\<rparr>
                stale_storage)
           = Some (Inl (ValidationError (not_downloaded_message ''2301.00001'')))"
proof -
  have h0: "distinct_keys stale_storage" by code_simp
  have h1: "''2301.00001'' \<noteq> []" by simp
  have v: "valid_entries stale_storage = []" by code_simp
  then have h2: "\<forall>(k, p) \<in> set (valid_entries stale_storage). paper_id p \<noteq> ''2301.00001''"
    by simp
  have h3: "''cat'' \<noteq> []" by simp
  from not_downloaded_validation_error[OF h0 h1 h2, of no_decoder None None "''cat''" no_RegExp]
       h0 h1 v h3
  show ?thesis by simp
qed

section \<open>The line scan finds no heading\<close>

lemma canonicalize_lf: "canonicalize ic c = CHR 0x0A \<longleftrightarrow> c = CHR 0x0A"
proof -
  have "CHR 0x0A \<notin> set upper_case_letters" "CHR 0x0A \<notin> set lower_case_letters"
    by (simp_all add: upper_case_letters_def lower_case_letters_def)
  moreover have "map_of (zip lower_case_letters upper_case_letters) c = Some u
                  \<Longrightarrow> u \<in> set upper_case_letters" for u
    by (auto dest!: map_of_SomeD dest: set_zip_rightD)
  moreover have "map_of (zip lower_case_letters upper_case_letters) (CHR 0x0A) = None"
    by (simp add: upper_case_letters_def lower_case_letters_def)
  ultimately show ?thesis
    by (auto simp: canonicalize_def split: option.splits)
qed

lemma needs_lf_no_match:
  "needs_lf r \<Longrightarrow> CHR 0x0A \<notin> set s \<Longrightarrow> ms ic r s i = []"
proof (induction r arbitrary: i)
  case (Chr c)
  have lf: "canonicalize ic (CHR 0x0A) = CHR 0x0A" by (simp add: canonicalize_lf)
  from Chr show ?case by (auto simp: lf canonicalize_lf dest: nth_mem)
qed auto

lemma needs_lf_mk_seq: "\<exists>r \<in> set rs. needs_lf r \<Longrightarrow> needs_lf (mk_seq rs)"
  by (induction rs rule: mk_seq.induct) auto

lemma needs_lf_heading: "needs_lf (heading w)"
  unfolding heading_def by (rule needs_lf_mk_seq) (simp add: nl_def)

lemma needs_lf_numbered: "needs_lf numbered_introduction"
  by (simp add: numbered_introduction_def nl_def)

lemma sectionPatterns_need_lf:
  "\<forall>(name, patterns) \<in> set sectionPatterns. \<forall>r \<in> set patterns. needs_lf r"
  by (simp add: sectionPatterns_def needs_lf_heading needs_lf_numbered)

lemma regexp_test_needs_lf:
  assumes "needs_lf r" "CHR 0x0A \<notin> set s"
  shows "\<not> regexp_test (rx_matcher ic r) s"
proof -
  have "find (\<lambda>p. rx_matcher ic r s p \<noteq> None) xs = None" for xs
    using needs_lf_no_match[OF assms] by (simp add: find_None_iff rx_matcher_def)
  then show ?thesis by (simp add: regexp_test_def first_match_def)
qed

lemma find_section_no_lf:
  assumes "CHR 0x0A \<notin> set line"
  shows "find_section line = None"
proof -
  have "\<not> list_ex (\<lambda>pattern. regexp_test (rx_matcher True pattern) line) patterns"
    if "(name, patterns) \<in> set sectionPatterns" for name patterns
    using that sectionPatterns_need_lf regexp_test_needs_lf[OF _ assms]
    by (fastforce simp: list_ex_iff)
  then show ?thesis
    by (auto simp: find_section_def find_None_iff)
qed

lemma split_lines_no_lf: "l \<in> set (split_lines s) \<Longrightarrow> CHR 0x0A \<notin> set l"
proof (induction s arbitrary: l)
  case Nil
  then show ?case by simp
next
  case (Cons c cs)
  then show ?case
    by (cases "split_lines cs") (auto split: if_splits)
qed

lemma scan_lines_no_heading:
  assumes "\<forall>l \<in> set lines. find_section l = None"
  shows "scan_lines lines (secs, None, content) = (secs, None, content)"
  using assms by (induction lines) auto

text \<open>
  So the line scan stores nothing, whatever the text, and the section map is the
  abstract of the fallback pattern or empty.
\<close>

lemma extractSections_fallback_only:
  "extractSections text =
     (case abstractMatch text of Some group1 \<Rightarrow> [(''abstract'', trim group1)] | None \<Rightarrow> [])"
proof -
  have "scan_lines (split_lines text) ([], None, []) = ([], None, [])"
    by (rule scan_lines_no_heading) (simp add: find_section_no_lf split_lines_no_lf)
  then show ?thesis
    by (simp add: extractSections_def save_section_def split: option.splits)
qed

section \<open>File names: results\<close>

lemma replace_first_slash_one:
  "count_list arxivId (CHR ''/'') \<le> 1 \<Longrightarrow>
   replace_first_slash arxivId = map (\<lambda>c. if c = CHR ''/'' then CHR ''_'' else c) arxivId"
proof (induction arxivId)
  case Nil
  then show ?case by simp
next
  case (Cons c cs)
  show ?case
  proof (cases "c = CHR ''/''")
    case True
    with Cons.prems have "count_list cs (CHR ''/'') = 0" by simp
    then have "CHR ''/'' \<notin> set cs" by (simp add: count_list_0_iff)
    then have "map (\<lambda>c. if c = CHR ''/'' then CHR ''_'' else c) cs = cs"
      by (induction cs) auto
    with True show ?thesis by simp
  next
    case False
    with Cons show ?thesis by simp
  qed
qed

lemma set_replace_whitespace:
  "c \<in> set (replace_whitespace s) \<Longrightarrow> \<not> isWhiteSpace c \<and> (c \<in> set s \<or> c = CHR ''_'')"
proof (induction s rule: replace_whitespace.induct)
  case 1
  then show ?case by simp
next
  case (2 d ds)
  show ?case
  proof (cases "isWhiteSpace d")
    case True
    with 2 have "c = CHR ''_'' \<or> c \<in> set (replace_whitespace (dropWhile isWhiteSpace ds))" by simp
    then show ?thesis
    proof
      assume "c = CHR ''_''"
      then show ?thesis by (simp add: isWhiteSpace_def)
    next
      assume "c \<in> set (replace_whitespace (dropWhile isWhiteSpace ds))"
      from "2.IH"(1)[OF True this] show ?thesis by (auto dest: set_dropWhileD)
    qed
  next
    case False
    with 2 show ?thesis by auto
  qed
qed

lemma set_collapse_underscores: "set (collapse_underscores s) \<subseteq> set s"
proof (induction s rule: collapse_underscores.induct)
  case 1
  then show ?case by simp
next
  case (2 d ds)
  show ?case
  proof (cases "d = CHR ''_''")
    case True
    with 2 show ?thesis by (auto dest: set_dropWhileD)
  next
    case False
    with 2 show ?thesis by auto
  qed
qed

lemma sanitizeFilename_chars:
  assumes "c \<in> set (sanitizeFilename filename)"
  shows "\<not> isWhiteSpace c
       \<and> c \<notin> set [CHR ''<'', CHR ''>'', CHR '':'', CHR 0x22, CHR ''/'', CHR 0x5C,
                   CHR ''|'', CHR ''?'', CHR ''*'']"
proof -
  from assms have "c \<in> set (collapse_underscores (replace_whitespace (replace_invalid filename)))"
    by (auto simp: sanitizeFilename_def dest: in_set_takeD)
  with set_collapse_underscores have "c \<in> set (replace_whitespace (replace_invalid filename))"
    by blast
  from set_replace_whitespace[OF this] have
    ws: "\<not> isWhiteSpace c" and "c \<in> set (replace_invalid filename) \<or> c = CHR ''_''" by auto
  then have "c \<notin> set [CHR ''<'', CHR ''>'', CHR '':'', CHR 0x22, CHR ''/'', CHR 0x5C,
                   CHR ''|'', CHR ''?'', CHR ''*'']"
    by (auto simp: replace_invalid_def split: if_splits)
  with ws show ?thesis by simp
qed


end
